theory Spec2Isabelle
  imports Complex_Main "HOL-Library.FSet" "HOL-Library.List_Lexorder"
begin

section \<open>Python values and errors\<close>

text \<open>
  Byte strings (\<open>bytes\<close>) are lists of 8-bit characters; text strings (\<open>str\<close>) are lists
  of Unicode code points. Python integers are unbounded.
\<close>

type_synonym bytes = string
type_synonym str = "nat list"

datatype error =
    KeyError
  | ValueError
  | UnicodeDecodeError
  | UnicodeEncodeError
  | AlreadyCalledError
  | Error int bytes \<comment> \<open>\<open>twisted.web.error.Error(code, message)\<close>\<close>

datatype pyval =
    PyNone
  | PyBool bool
  | PyInt int
  | PyStr str
  | PyTuple "int list"

definition BAD_REQUEST :: int where
  "BAD_REQUEST = 400"

text \<open>Truth value of an object, as \<open>and\<close>/\<open>if\<close> test it.\<close>

fun truthy :: "pyval \<Rightarrow> bool" where
  "truthy PyNone = False"
| "truthy (PyBool b) = b"
| "truthy (PyInt i) = (i \<noteq> 0)"
| "truthy (PyStr s) = (s \<noteq> [])"
| "truthy (PyTuple t) = (t \<noteq> [])"

definition ascii :: "string \<Rightarrow> str" where
  "ascii s = map of_char s"

subsection \<open>\<open>bytes.decode()\<close> and \<open>str.encode()\<close>: strict UTF-8\<close>

definition cont :: "nat \<Rightarrow> bool" where
  "cont b = (128 \<le> b \<and> b \<le> 191)"

definition prepend :: "nat \<Rightarrow> error + str \<Rightarrow> error + str" where
  "prepend c r = (case r of Inl e \<Rightarrow> Inl e | Inr s \<Rightarrow> Inr (c # s))"

text \<open>
  The decoder rejects stray continuation bytes, truncated sequences, overlong forms
  (lead bytes 192, 193, and the low second bytes after 224 and 240), surrogates (second
  byte above 159 after 237) and code points above 1114111.
\<close>

fun utf8_decode :: "nat list \<Rightarrow> error + str" where
  "utf8_decode [] = Inr []"
| "utf8_decode (b0 # bs) =
    (if b0 < 128 then prepend b0 (utf8_decode bs)
     else if 194 \<le> b0 \<and> b0 \<le> 223 then
       (case bs of
          b1 # r \<Rightarrow>
            if cont b1
            then prepend ((b0 - 192) * 64 + (b1 - 128)) (utf8_decode r)
            else Inl UnicodeDecodeError
        | _ \<Rightarrow> Inl UnicodeDecodeError)
     else if 224 \<le> b0 \<and> b0 \<le> 239 then
       (case bs of
          b1 # b2 # r \<Rightarrow>
            if cont b1 \<and> cont b2 \<and> (b0 = 224 \<longrightarrow> 160 \<le> b1) \<and> (b0 = 237 \<longrightarrow> b1 \<le> 159)
            then prepend ((b0 - 224) * 4096 + (b1 - 128) * 64 + (b2 - 128)) (utf8_decode r)
            else Inl UnicodeDecodeError
        | _ \<Rightarrow> Inl UnicodeDecodeError)
     else if 240 \<le> b0 \<and> b0 \<le> 244 then
       (case bs of
          b1 # b2 # b3 # r \<Rightarrow>
            if cont b1 \<and> cont b2 \<and> cont b3
               \<and> (b0 = 240 \<longrightarrow> 144 \<le> b1) \<and> (b0 = 244 \<longrightarrow> b1 \<le> 143)
            then prepend ((b0 - 240) * 262144 + (b1 - 128) * 4096 + (b2 - 128) * 64 + (b3 - 128))
                   (utf8_decode r)
            else Inl UnicodeDecodeError
        | _ \<Rightarrow> Inl UnicodeDecodeError)
     else Inl UnicodeDecodeError)"

definition decode :: "bytes \<Rightarrow> error + str" where
  "decode val = utf8_decode (map of_char val)"

fun utf8_encode :: "str \<Rightarrow> error + bytes" where
  "utf8_encode [] = Inr []"
| "utf8_encode (c # cs) =
    (if (55296 \<le> c \<and> c \<le> 57343) \<or> 1114111 < c then Inl UnicodeEncodeError
     else case utf8_encode cs of
       Inl e \<Rightarrow> Inl e
     | Inr r \<Rightarrow>
         Inr (map char_of
           (if c < 128 then [c]
            else if c < 2048 then [192 + c div 64, 128 + c mod 64]
            else if c < 65536 then [224 + c div 4096, 128 + c div 64 mod 64, 128 + c mod 64]
            else [240 + c div 262144, 128 + c div 4096 mod 64, 128 + c div 64 mod 64,
                  128 + c mod 64]) @ r))"

definition encode :: "str \<Rightarrow> error + bytes" where
  "encode name = utf8_encode name"

section \<open>\<open>param.py\<close>\<close>

subsection \<open>\<open>Param\<close>\<close>

record Param =
  required :: bool
  default :: pyval

text \<open>\<open>Param.__init__\<close>: a required parameter with a truthy default is refused.\<close>

definition Param_init :: "bool \<Rightarrow> pyval \<Rightarrow> error + Param" where
  "Param_init req dflt =
     (if req \<and> truthy dflt then Inl ValueError
      else Inr \<lparr>required = req, default = dflt\<rparr>)"

text \<open>\<open>Param.parse\<close>, the method subclasses override.\<close>

definition Param_parse :: "bytes \<Rightarrow> error + pyval" where
  "Param_parse val = (case decode val of Inl e \<Rightarrow> Inl e | Inr s \<Rightarrow> Inr (PyStr s))"

text \<open>
  \<open>Param.parse_from_request\<close>. The request is represented by its \<open>args\<close> dictionary; the
  method \<open>self.parse\<close> is the argument \<open>parse\<close>.
\<close>

definition parse_from_request ::
  "(bytes \<Rightarrow> error + pyval) \<Rightarrow> Param \<Rightarrow> str \<Rightarrow> (bytes \<rightharpoonup> bytes list) \<Rightarrow> error + pyval" where
  "parse_from_request parse self name args =
     (case encode name of
        Inl e \<Rightarrow> Inl e
      | Inr name_bytes \<Rightarrow>
          (case args name_bytes of
             None \<Rightarrow>
               if default self \<noteq> PyNone then Inr (default self)
               else if required self
               then Inl (Error BAD_REQUEST (name_bytes @ '' is required''))
               else Inr PyNone
           | Some vals \<Rightarrow>
               if length vals \<noteq> 1
               then Inl (Error BAD_REQUEST (''Pass exactly one argument for '' @ name_bytes))
               else parse (vals ! 0)))"

subsection \<open>\<open>BoolParam\<close>\<close>

text \<open>A decoded string is never \<open>None\<close>, so the test \<open>val_str is None\<close> is always false.\<close>

definition BoolParam_parse :: "bytes \<Rightarrow> error + pyval" where
  "BoolParam_parse val =
     (case decode val of
        Inl e \<Rightarrow> Inl e
      | Inr val_str \<Rightarrow>
          if False \<or> val_str = ascii ''false'' then Inr (PyBool False)
          else if val_str = ascii ''true'' then Inr (PyBool True)
          else Inl (Error BAD_REQUEST
                 (''Boolean parameter must be '' @ [CHR 0x27] @ ''true'' @ [CHR 0x27]
                  @ '' or '' @ [CHR 0x27] @ ''false'' @ [CHR 0x27])))"

subsection \<open>\<open>VersionParam\<close>\<close>

text \<open>\<open>str.split(sep)\<close> with a one-character separator: never an empty list.\<close>

fun split :: "nat \<Rightarrow> str \<Rightarrow> str list" where
  "split sep [] = [] # []"
| "split sep (c # cs) =
    (if c = sep then [] # split sep cs
     else case split sep cs of p # ps \<Rightarrow> (c # p) # ps | [] \<Rightarrow> [c] # [])"

text \<open>
  \<open>int(s)\<close> for a string, base ten, as the interpreter converts it. Characters from 127
  on are first made ASCII: whitespace becomes a blank, a character with the Unicode
  decimal property becomes its digit (that table depends on the Unicode version of the
  interpreter and is the parameter \<open>tbl\<close>), anything else is no part of a number. Then
  blanks (the characters 9 to 13 and 32) are skipped at both ends, one sign is allowed,
  and decimal digits follow, single underscores allowed between digits. A number of
  more than 640 digits is refused when it has more digits than the interpreter's
  setting \<open>max_str_digits\<close> allows (4300 unless it is set otherwise; 0 means no limit).
  Every refusal is a \<open>ValueError\<close>.
\<close>

definition int_space :: "nat \<Rightarrow> bool" where
  "int_space c =
     ((9 \<le> c \<and> c \<le> 13) \<or> c = 32 \<or> c = 133 \<or> c = 160 \<or> c = 5760
      \<or> (8192 \<le> c \<and> c \<le> 8202) \<or> c = 8232 \<or> c = 8233 \<or> c = 8239 \<or> c = 8287
      \<or> c = 12288)"

definition strip :: "str \<Rightarrow> str" where
  "strip s = rev (dropWhile int_space (rev (dropWhile int_space s)))"

definition digit_value :: "(nat \<Rightarrow> nat option) \<Rightarrow> nat \<Rightarrow> nat option" where
  "digit_value tbl c =
     (if 48 \<le> c \<and> c \<le> 57 then Some (c - 48)
      else if c < 128 \<or> int_space c then None
      else case tbl c of None \<Rightarrow> None | Some v \<Rightarrow> if v < 10 then Some v else None)"

definition default_max_str_digits :: nat where
  "default_max_str_digits = 4300"

definition too_many_digits :: "nat \<Rightarrow> nat \<Rightarrow> bool" where
  "too_many_digits max_str_digits digits =
     (640 < digits \<and> 0 < max_str_digits \<and> max_str_digits < digits)"

fun int_digits :: "(nat \<Rightarrow> nat option) \<Rightarrow> int \<Rightarrow> str \<Rightarrow> int option" where
  "int_digits tbl acc [] = Some acc"
| "int_digits tbl acc (c # cs) =
    (if c = 95 then
       (case cs of
          [] \<Rightarrow> None
        | d # ds \<Rightarrow>
            (case digit_value tbl d of
               None \<Rightarrow> None
             | Some v \<Rightarrow> int_digits tbl (acc * 10 + int v) ds))
     else
       (case digit_value tbl c of
          None \<Rightarrow> None
        | Some v \<Rightarrow> int_digits tbl (acc * 10 + int v) cs))"

text \<open>The digits counted against the limit are the characters other than underscores.\<close>

definition int_unsigned :: "(nat \<Rightarrow> nat option) \<Rightarrow> nat \<Rightarrow> str \<Rightarrow> int option" where
  "int_unsigned tbl max_str_digits s =
     (case s of
        [] \<Rightarrow> None
      | c # cs \<Rightarrow>
          (case digit_value tbl c of
             None \<Rightarrow> None
           | Some v \<Rightarrow>
               if too_many_digits max_str_digits (length (filter (\<lambda>x. x \<noteq> 95) s)) then None
               else int_digits tbl (int v) cs))"

definition py_int :: "(nat \<Rightarrow> nat option) \<Rightarrow> nat \<Rightarrow> str \<Rightarrow> error + int" where
  "py_int tbl max_str_digits s =
     (let t = strip s;
          r = (case t of
                 [] \<Rightarrow> None
               | c # u \<Rightarrow>
                   if c = 43 then int_unsigned tbl max_str_digits u
                   else if c = 45 then map_option uminus (int_unsigned tbl max_str_digits u)
                   else int_unsigned tbl max_str_digits t)
      in case r of None \<Rightarrow> Inl ValueError | Some i \<Rightarrow> Inr i)"

text \<open>\<open>tuple(map(int, parts))\<close>: the first component that is no integer raises.\<close>

fun map_int :: "(nat \<Rightarrow> nat option) \<Rightarrow> nat \<Rightarrow> str list \<Rightarrow> error + int list" where
  "map_int tbl m [] = Inr []"
| "map_int tbl m (p # ps) =
    (case py_int tbl m p of
       Inl e \<Rightarrow> Inl e
     | Inr i \<Rightarrow> (case map_int tbl m ps of Inl e \<Rightarrow> Inl e | Inr r \<Rightarrow> Inr (i # r)))"

text \<open>
  \<open>VersionParam.parse\<close>: decoding happens before the \<open>try\<close> block; the \<open>ValueError\<close> of
  \<open>int\<close> is turned into the 400 error.
\<close>

definition VersionParam_parse ::
  "(nat \<Rightarrow> nat option) \<Rightarrow> nat \<Rightarrow> bytes \<Rightarrow> error + pyval" where
  "VersionParam_parse tbl max_str_digits val =
     (case decode val of
        Inl e \<Rightarrow> Inl e
      | Inr val_str \<Rightarrow>
          (case map_int tbl max_str_digits (split 46 val_str) of
             Inl ValueError \<Rightarrow> Inl (Error BAD_REQUEST ''Invalid version literal'')
           | Inl e \<Rightarrow> Inl e
           | Inr t \<Rightarrow> Inr (PyTuple t)))"

text \<open>Comparison \<open>a < b\<close> of two tuples of integers.\<close>

fun tuple_lt :: "int list \<Rightarrow> int list \<Rightarrow> bool" where
  "tuple_lt [] [] = False"
| "tuple_lt [] (y # ys) = True"
| "tuple_lt (x # xs) [] = False"
| "tuple_lt (x # xs) (y # ys) = (if x = y then tuple_lt xs ys else x < y)"

text \<open>The expression \<open>parse(v) < parse(w)\<close>; \<open>None\<close> when either call raises.\<close>

definition parse_lt ::
  "(nat \<Rightarrow> nat option) \<Rightarrow> nat \<Rightarrow> bytes \<Rightarrow> bytes \<Rightarrow> bool option" where
  "parse_lt tbl max_str_digits v w =
     (case (VersionParam_parse tbl max_str_digits v, VersionParam_parse tbl max_str_digits w) of
        (Inr (PyTuple a), Inr (PyTuple b)) \<Rightarrow> Some (tuple_lt a b)
      | _ \<Rightarrow> None)"

text \<open>
  The specification's side of the version claim: a version is a non-empty list of
  decimal integers (non-empty runs of the digits 0 to 9) written with dots between them;
  each component has its positional value; versions are ordered lexicographically by
  value, a proper prefix coming first (the order \<open><\<close> of lists of integers).
\<close>

definition is_digit :: "char \<Rightarrow> bool" where
  "is_digit c = (48 \<le> (of_char c :: nat) \<and> (of_char c :: nat) \<le> 57)"

definition decimal_integer :: "bytes \<Rightarrow> bool" where
  "decimal_integer d = (d \<noteq> [] \<and> list_all is_digit d)"

fun join_dots :: "bytes list \<Rightarrow> bytes" where
  "join_dots [] = []"
| "join_dots [d] = d"
| "join_dots (d # e # r) = d @ ''.'' @ join_dots (e # r)"

definition component_value :: "bytes \<Rightarrow> int" where
  "component_value d = foldl (\<lambda>a c. 10 * a + (int (of_char c) - 48)) 0 d"

definition version_less :: "bytes list \<Rightarrow> bytes list \<Rightarrow> bool" where
  "version_less ds es = (map component_value ds < map component_value es)"

text \<open>A version all of whose components the interpreter's limit lets through.\<close>

definition within_limit :: "nat \<Rightarrow> bytes list \<Rightarrow> bool" where
  "within_limit max_str_digits ds = list_all (\<lambda>d. \<not> too_many_digits max_str_digits (length d)) ds"

text \<open>
  A table without entries, for inputs that are ASCII throughout, where the table is
  not looked at.
\<close>

definition no_entries :: "nat \<Rightarrow> nat option" where
  "no_entries c = None"

section \<open>\<open>util/wait_on_shutdown.py\<close>\<close>

subsection \<open>What the module uses of the standard library and of Twisted\<close>

text \<open>
  A log record keeps its level, its message template and the arguments of the template,
  as \<open>logging\<close> does.
\<close>

datatype level = INFO | WARNING

datatype log_record = LogRecord level string "nat list"

text \<open>
  A Twisted \<open>Deferred\<close>: its result once it has been called, and the callbacks waiting for
  it. The only callbacks this module attaches are those of the \<open>DeferredList\<close> that
  \<open>shutdown\<close> returns, so a waiting callback is the index it has in that list.
\<close>

record Deferred =
  result :: "pyval option"
  callbacks :: "nat list"

definition called :: "Deferred \<Rightarrow> bool" where
  "called d = (result d \<noteq> None)"

definition new_Deferred :: Deferred where
  "new_Deferred = \<lparr>result = None, callbacks = []\<rparr>"

text \<open>
  \<open>Deferred.callback(r)\<close>: Twisted raises \<open>AlreadyCalledError\<close> when the Deferred has been
  called before; otherwise the result is stored and the waiting callbacks are handed
  out to be run, in order.
\<close>

definition Deferred_callback :: "Deferred \<Rightarrow> pyval \<Rightarrow> error + Deferred \<times> nat list" where
  "Deferred_callback d r =
     (if called d then Inl AlreadyCalledError
      else Inr (d\<lparr>result := Some r, callbacks := []\<rparr>, callbacks d))"

text \<open>
  A \<open>DeferredList\<close> with the default flags: it fires when every Deferred it was given has
  a result.
\<close>

record DeferredList =
  resultList :: "pyval option list"
  finishedCount :: nat
  fired :: bool

definition cbDeferred :: "nat \<Rightarrow> pyval \<Rightarrow> DeferredList \<Rightarrow> DeferredList" where
  "cbDeferred index r dl =
     (let dl1 = dl\<lparr>resultList := (resultList dl)[index := Some r],
                    finishedCount := finishedCount dl + 1\<rparr>
      in if \<not> fired dl1 \<and> finishedCount dl1 = length (resultList dl1)
         then dl1\<lparr>fired := True\<rparr> else dl1)"

text \<open>
  \<open>addCallbacks\<close> of the list's callback on one Deferred: it runs at once when the
  Deferred already has its result.
\<close>

definition addCallbacks :: "nat \<Rightarrow> Deferred \<Rightarrow> DeferredList \<Rightarrow> Deferred \<times> DeferredList" where
  "addCallbacks index d dl =
     (case result d of
        Some r \<Rightarrow> (d, cbDeferred index r dl)
      | None \<Rightarrow> (d\<lparr>callbacks := callbacks d @ [index]\<rparr>, dl))"

text \<open>The callables handed to \<open>reactor.callLater\<close>.\<close>

datatype callable = KillTimeout | KillIfRequestsDone

subsection \<open>The state \<open>wait_on_shutdown\<close> closes over\<close>

text \<open>
  \<open>running_reqs\<close> is the set of the module; \<open>notify_finish\<close> holds, for every request made
  by \<open>request_factory\<close> that has not finished yet, the argument bound to its \<open>remove_req\<close>
  callback; \<open>delayed_calls\<close> are the reactor's pending calls with their delays. The two
  Deferreds and the list are made by \<open>shutdown\<close> and mean nothing before it has run.
\<close>

record state =
  running_reqs :: "int fset"
  notify_finish :: "int list"
  log :: "log_record list"
  delayed_calls :: "(real \<times> callable) list"
  timeout_deferred :: Deferred
  close_conn_deferred :: Deferred
  shutdown_deferred :: DeferredList

definition logging :: "level \<Rightarrow> string \<Rightarrow> nat list \<Rightarrow> state \<Rightarrow> state" where
  "logging lvl msg args st = st\<lparr>log := log st @ [LogRecord lvl msg args]\<rparr>"

definition callLater :: "real \<Rightarrow> callable \<Rightarrow> state \<Rightarrow> state" where
  "callLater delay f st = st\<lparr>delayed_calls := delayed_calls st @ [(delay, f)]\<rparr>"

text \<open>\<open>timeout_deferred.callback(r)\<close>, running the callbacks of the list it feeds.\<close>

definition timeout_deferred_callback :: "pyval \<Rightarrow> state \<Rightarrow> (error + unit) \<times> state" where
  "timeout_deferred_callback r st =
     (case Deferred_callback (timeout_deferred st) r of
        Inl e \<Rightarrow> (Inl e, st)
      | Inr (d, cbs) \<Rightarrow>
          (Inr (), st\<lparr>timeout_deferred := d,
                      shutdown_deferred := fold (\<lambda>i. cbDeferred i r) cbs (shutdown_deferred st)\<rparr>))"

text \<open>The port calling back the Deferred that \<open>stopListening\<close> returned.\<close>

definition close_conn_deferred_callback :: "pyval \<Rightarrow> state \<Rightarrow> (error + unit) \<times> state" where
  "close_conn_deferred_callback r st =
     (case Deferred_callback (close_conn_deferred st) r of
        Inl e \<Rightarrow> (Inl e, st)
      | Inr (d, cbs) \<Rightarrow>
          (Inr (), st\<lparr>close_conn_deferred := d,
                      shutdown_deferred := fold (\<lambda>i. cbDeferred i r) cbs (shutdown_deferred st)\<rparr>))"

subsection \<open>\<open>request_factory\<close> and \<open>remove_req\<close>\<close>

text \<open>\<open>set.remove\<close> raises \<open>KeyError\<close> for an element that is not in the set.\<close>

definition remove_req :: "int \<Rightarrow> state \<Rightarrow> (error + unit) \<times> state" where
  "remove_req req_hash st =
     (if req_hash |\<in>| running_reqs st
      then (Inr (), st\<lparr>running_reqs := running_reqs st |-| {|req_hash|}\<rparr>)
      else (Inl KeyError, st))"

text \<open>
  \<open>request_factory\<close>, given \<open>id(req)\<close> of the request the wrapped factory made: \<open>set.add\<close>
  takes an element whether or not it is in the set already.
\<close>

definition request_factory :: "int \<Rightarrow> state \<Rightarrow> (error + unit) \<times> state" where
  "request_factory req_hash st =
     (Inr (), st\<lparr>running_reqs := finsert req_hash (running_reqs st),
                 notify_finish := notify_finish st @ [req_hash]\<rparr>)"

subsection \<open>\<open>shutdown\<close>\<close>

definition kill_timeout :: "state \<Rightarrow> (error + unit) \<times> state" where
  "kill_timeout st =
     timeout_deferred_callback (PyBool True)
       (logging WARNING ''Timeout reached, canceling %s requests'' [fcard (running_reqs st)] st)"

definition kill_if_requests_done :: "state \<Rightarrow> (error + unit) \<times> state" where
  "kill_if_requests_done st =
     (if running_reqs st = {||}
      then timeout_deferred_callback (PyBool True)
             (logging INFO ''No pending requests, shutting down!'' [] st)
      else (Inr (),
            callLater 5 KillIfRequestsDone
              (logging INFO ''%s requests still running, waiting ...''
                 [fcard (running_reqs st)] st)))"

text \<open>\<open>DeferredList([timeout_deferred, close_conn_deferred])\<close>.\<close>

definition new_DeferredList :: "state \<Rightarrow> state" where
  "new_DeferredList st =
     (let dl0 = \<lparr>resultList = [None, None], finishedCount = 0, fired = False\<rparr>;
          (d0, dl1) = addCallbacks 0 (timeout_deferred st) dl0;
          (d1, dl2) = addCallbacks 1 (close_conn_deferred st) dl1
      in st\<lparr>timeout_deferred := d0, close_conn_deferred := d1, shutdown_deferred := dl2\<rparr>)"

text \<open>
  \<open>shutdown\<close>. The Deferred that \<open>port.stopListening()\<close> returns is given by \<open>stopped\<close>: its
  result if the port has called it back already, \<open>None\<close> while the port is still closing.
\<close>

definition shutdown :: "real \<Rightarrow> pyval option \<Rightarrow> state \<Rightarrow> (error + unit) \<times> state" where
  "shutdown timeout stopped st =
     (let st1 = logging INFO ''Shutdown requested'' [] st;
          st2 = st1\<lparr>timeout_deferred := new_Deferred\<rparr>;
          st3 = callLater timeout KillTimeout st2;
          st4 = st3\<lparr>close_conn_deferred := \<lparr>result = stopped, callbacks = []\<rparr>\<rparr>;
          (r, st5) = kill_if_requests_done st4
      in case r of
           Inl e \<Rightarrow> (Inl e, st5)
         | Inr _ \<Rightarrow> (Inr (), new_DeferredList st5))"

subsection \<open>What the reactor may do after \<open>shutdown\<close> has returned\<close>

text \<open>
  One event at a time: a connection makes a request, a request finishes and its
  \<open>notifyFinish\<close> callback runs, a pending delayed call runs, or the port reports that it
  has stopped listening. The delays are kept but not compared: any pending call may be
  the next to run.
\<close>

datatype event = Request int | Finished nat | Timer nat | PortClosed pyval

definition run_callable :: "callable \<Rightarrow> state \<Rightarrow> (error + unit) \<times> state" where
  "run_callable f st = (case f of KillTimeout \<Rightarrow> kill_timeout st
                                 | KillIfRequestsDone \<Rightarrow> kill_if_requests_done st)"

definition step :: "event \<Rightarrow> state \<Rightarrow> (error + unit) \<times> state" where
  "step ev st =
     (case ev of
        Request h \<Rightarrow> request_factory h st
      | Finished i \<Rightarrow>
          if i < length (notify_finish st)
          then remove_req (notify_finish st ! i)
                 (st\<lparr>notify_finish := take i (notify_finish st) @ drop (Suc i) (notify_finish st)\<rparr>)
          else (Inr (), st)
      | Timer i \<Rightarrow>
          if i < length (delayed_calls st)
          then run_callable (snd (delayed_calls st ! i))
                 (st\<lparr>delayed_calls := take i (delayed_calls st) @ drop (Suc i) (delayed_calls st)\<rparr>)
          else (Inr (), st)
      | PortClosed r \<Rightarrow> close_conn_deferred_callback r st)"

text \<open>A run of events; an exception raised by one of them is logged by the reactor and the run goes on.\<close>

fun run :: "event list \<Rightarrow> state \<Rightarrow> state" where
  "run [] st = st"
| "run (ev # evs) st = run evs (snd (step ev st))"

text \<open>Any number of \<open>notifyFinish\<close> callbacks, matched by a tracked request or not, one after another.\<close>

fun remove_reqs :: "int list \<Rightarrow> state \<Rightarrow> state" where
  "remove_reqs [] st = st"
| "remove_reqs (h # hs) st = remove_reqs hs (snd (remove_req h st))"

text \<open>A site that has served nothing yet, and the same site with one request running.\<close>

definition idle :: state where
  "idle = \<lparr>running_reqs = {||}, notify_finish = [], log = [], delayed_calls = [],
           timeout_deferred = new_Deferred, close_conn_deferred = new_Deferred,
           shutdown_deferred = \<lparr>resultList = [], finishedCount = 0, fired = False\<rparr>\<rparr>"

definition busy :: state where
  "busy = snd (request_factory 1 idle)"

text \<open>
  How the list that \<open>shutdown\<close> returns hangs on its two Deferreds: each Deferred that
  has no result yet holds the list's callback once, each one that has a result has been
  counted once, and the list has fired exactly when the count is two.
\<close>

definition joined :: "state \<Rightarrow> bool" where
  "joined s =
     (length (resultList (shutdown_deferred s)) = 2
      \<and> callbacks (timeout_deferred s) = (if called (timeout_deferred s) then [] else [0])
      \<and> callbacks (close_conn_deferred s) = (if called (close_conn_deferred s) then [] else [1])
      \<and> finishedCount (shutdown_deferred s) =
          (if called (timeout_deferred s) then 1 else 0)
          + (if called (close_conn_deferred s) then 1 else 0)
      \<and> fired (shutdown_deferred s) = (finishedCount (shutdown_deferred s) = 2))"

section \<open>Properties of \<open>param.py\<close>\<close>

subsection \<open>Decoding\<close>

lemma utf8_decode_ascii: "list_all (\<lambda>b. b < 128) bs \<Longrightarrow> utf8_decode bs = Inr bs"
  by (induction bs) (simp_all add: prepend_def)

lemma decode_ascii:
  "list_all (\<lambda>c. (of_char c :: nat) < 128) val \<Longrightarrow> decode val = Inr (ascii val)"
  unfolding decode_def ascii_def by (rule utf8_decode_ascii) (simp add: list_all_iff)

lemma utf8_encode_ascii:
  "list_all (\<lambda>c. (of_char c :: nat) < 128) s \<Longrightarrow> utf8_encode (map of_char s) = Inr s"
  by (induction s) simp_all

lemma encode_ascii:
  "list_all (\<lambda>c. (of_char c :: nat) < 128) s \<Longrightarrow> encode (ascii s) = Inr s"
  by (simp add: encode_def ascii_def utf8_encode_ascii)

subsection \<open>Missing arguments\<close>

text \<open>
  C8. When the encoded name is not a key of the request's arguments,
  \<open>Param.parse_from_request\<close> returns the default if it is not \<open>None\<close> (whatever
  \<open>required\<close> says), raises the 400 error if the default is \<open>None\<close> and the parameter is
  required, and returns \<open>None\<close> otherwise. The constructor refuses exactly the required
  parameters with a truthy default, so a required parameter with a falsy default other
  than \<open>None\<close>, such as 0, is constructed and returns that default for a missing argument.
  This is the method of \<open>Param\<close>, inherited by every subclass of the module but
  \<open>LangParam\<close>, which overrides it.
\<close>

theorem parse_from_request_missing:
  assumes "encode name = Inr name_bytes" and "args name_bytes = None"
  shows "parse_from_request parse self name args =
           (if default self \<noteq> PyNone then Inr (default self)
            else if required self
            then Inl (Error BAD_REQUEST (name_bytes @ '' is required''))
            else Inr PyNone)
       \<and> (Param_init req d = Inl ValueError \<longleftrightarrow> req \<and> truthy d)
       \<and> (\<not> truthy d \<and> d \<noteq> PyNone \<longrightarrow>
            Param_init True d = Inr \<lparr>required = True, default = d\<rparr>
            \<and> parse_from_request parse \<lparr>required = True, default = d\<rparr> name args = Inr d)
       \<and> Param_init True (PyInt 0) = Inr \<lparr>required = True, default = PyInt 0\<rparr>"
  using assms by (simp add: parse_from_request_def Param_init_def)

theorem parse_from_request_missing_witness:
  "encode (ascii ''page'') = Inr ''page''
 \<and> [''q'' \<mapsto> [''x'']] ''page'' = None
 \<and> parse_from_request BoolParam_parse \<lparr>required = True, default = PyNone\<rparr> (ascii ''page'')
      [''q'' \<mapsto> [''x'']] = Inl (Error 400 ''page is required'')
 \<and> parse_from_request BoolParam_parse \<lparr>required = True, default = PyInt 0\<rparr> (ascii ''page'')
      [''q'' \<mapsto> [''x'']] = Inr (PyInt 0)
 \<and> Param_init True (PyInt 7) = Inl ValueError"
proof -
  have h1: "encode (ascii ''page'') = Inr ''page''"
    by (rule encode_ascii) simp
  have h2: "[''q'' \<mapsto> [''x'']] ''page'' = None"
    by simp
  show ?thesis
    using h1 h2
      parse_from_request_missing [where name = "ascii ''page''" and name_bytes = "''page''"
        and args = "[''q'' \<mapsto> [''x'']]" and parse = BoolParam_parse
        and self = "\<lparr>required = True, default = PyNone\<rparr>" and req = True
        and d = "PyInt 7", OF h1 h2]
      parse_from_request_missing [where name = "ascii ''page''" and name_bytes = "''page''"
        and args = "[''q'' \<mapsto> [''x'']]" and parse = BoolParam_parse
        and self = "\<lparr>required = True, default = PyInt 0\<rparr>" and req = True
        and d = "PyInt 0", OF h1 h2]
    by (simp add: BAD_REQUEST_def)
qed

subsection \<open>Booleans\<close>

text \<open>
  C10, as the code has it. \<open>BoolParam.parse\<close> returns \<open>True\<close> exactly when the input decodes
  to \<open>true\<close>, \<open>False\<close> exactly when it decodes to \<open>false\<close>, and raises the 400 error for every
  other input that decodes. An input that is not valid UTF-8 does not reach the test:
  the error that decoding raises is the result (for the byte \<open>0x80\<close>, say, a
  \<open>UnicodeDecodeError\<close>).
\<close>

theorem BoolParam_parse_cases:
  "(BoolParam_parse val = Inr (PyBool True) \<longleftrightarrow> decode val = Inr (ascii ''true''))
 \<and> (BoolParam_parse val = Inr (PyBool False) \<longleftrightarrow> decode val = Inr (ascii ''false''))
 \<and> (\<forall>s. decode val = Inr s \<and> s \<noteq> ascii ''true'' \<and> s \<noteq> ascii ''false'' \<longrightarrow>
       (\<exists>m. BoolParam_parse val = Inl (Error BAD_REQUEST m)))
 \<and> (\<forall>e. decode val = Inl e \<longrightarrow> BoolParam_parse val = Inl e)"
proof (cases "decode val")
  case (Inl e)
  then show ?thesis
    by (simp add: BoolParam_parse_def)
next
  case (Inr s)
  have "ascii ''true'' \<noteq> ascii ''false''"
    by (simp add: ascii_def)
  then show ?thesis
    using Inr by (auto simp: BoolParam_parse_def)
qed

theorem BoolParam_parse_cases_witness:
  "decode ''maybe'' = Inr (ascii ''maybe'')
 \<and> (\<exists>m. BoolParam_parse ''maybe'' = Inl (Error BAD_REQUEST m))
 \<and> decode ''true'' = Inr (ascii ''true'')
 \<and> BoolParam_parse ''true'' = Inr (PyBool True)
 \<and> BoolParam_parse ''false'' = Inr (PyBool False)
 \<and> BoolParam_parse [CHR 0x80] = Inl UnicodeDecodeError"
proof -
  have m: "decode ''maybe'' = Inr (ascii ''maybe'')"
    by (rule decode_ascii) simp
  have t: "decode ''true'' = Inr (ascii ''true'')"
    by (rule decode_ascii) simp
  have f: "decode ''false'' = Inr (ascii ''false'')"
    by (rule decode_ascii) simp
  have x: "decode [CHR 0x80] = Inl UnicodeDecodeError"
    by (simp add: decode_def)
  have n: "ascii ''maybe'' \<noteq> ascii ''true'' \<and> ascii ''maybe'' \<noteq> ascii ''false''"
    by (simp add: ascii_def)
  show ?thesis
    using m t f x n BoolParam_parse_cases [of "''maybe''"] BoolParam_parse_cases [of "''true''"]
      BoolParam_parse_cases [of "''false''"] BoolParam_parse_cases [of "[CHR 0x80]"]
    by simp
qed

text \<open>
  C10 as it is written fails at the one-byte input \<open>0xFF\<close>: the result is neither a
  boolean nor the 400 error.
\<close>

theorem BoolParam_parse_counterexample:
  "BoolParam_parse [CHR 0xFF] = Inl UnicodeDecodeError"
  by (simp add: BoolParam_parse_def decode_def)

subsection \<open>Versions\<close>

lemma split_nosep: "sep \<notin> set d \<Longrightarrow> split sep d = [d]"
  by (induction d) auto

lemma split_append: "sep \<notin> set d \<Longrightarrow> split sep (d @ sep # rest) = d # split sep rest"
  by (induction d) auto

lemma digit_not_dot: "list_all is_digit d \<Longrightarrow> 46 \<notin> set (ascii d)"
  by (auto simp: list_all_iff is_digit_def ascii_def)

lemma split_join:
  "ds \<noteq> [] \<Longrightarrow> list_all decimal_integer ds \<Longrightarrow> split 46 (ascii (join_dots ds)) = map ascii ds"
proof (induction ds rule: join_dots.induct)
  case 1
  then show ?case by simp
next
  case (2 d)
  then show ?case by (simp add: split_nosep digit_not_dot decimal_integer_def)
next
  case (3 d e r)
  have "ascii (join_dots (d # e # r)) = ascii d @ 46 # ascii (join_dots (e # r))"
    by (simp add: ascii_def)
  with 3 show ?case by (simp add: split_append digit_not_dot decimal_integer_def)
qed

lemma int_digits_digits:
  "list_all is_digit d \<Longrightarrow>
   int_digits tbl acc (ascii d) = Some (foldl (\<lambda>a c. 10 * a + (int (of_char c) - 48)) acc d)"
proof (induction d arbitrary: acc)
  case Nil
  then show ?case by (simp add: ascii_def)
next
  case (Cons c d)
  from Cons.prems have cd: "is_digit c" and d: "list_all is_digit d"
    by simp_all
  from cd have c: "48 \<le> (of_char c :: nat)" "(of_char c :: nat) \<le> 57"
    by (simp_all add: is_digit_def)
  have "int_digits tbl acc (ascii (c # d)) = int_digits tbl (acc * 10 + int (of_char c - 48)) (ascii d)"
    using c by (simp add: ascii_def digit_value_def)
  also have "acc * 10 + int (of_char c - 48) = 10 * acc + (int (of_char c) - 48)"
    using c by simp
  finally show ?case using Cons.IH [OF d] by simp
qed

lemma strip_id:
  assumes "s \<noteq> []" "\<not> int_space (hd s)" "\<not> int_space (last s)"
  shows "strip s = s"
proof -
  have 1: "dropWhile int_space s = s"
    using assms by (simp add: dropWhile_eq_self_iff)
  have 2: "dropWhile int_space (rev s) = rev s"
    using assms by (simp add: dropWhile_eq_self_iff hd_rev)
  show ?thesis by (simp add: strip_def 1 2)
qed

lemma digit_not_space: "is_digit c \<Longrightarrow> \<not> int_space (of_char c)"
  by (simp add: is_digit_def int_space_def)

lemma digits_counted:
  "list_all is_digit d \<Longrightarrow> length (filter (\<lambda>x. x \<noteq> 95) (ascii d)) = length d"
  by (induction d) (simp_all add: ascii_def is_digit_def)

lemma py_int_decimal_cases:
  assumes "decimal_integer d"
  shows "py_int tbl m (ascii d)
           = (if too_many_digits m (length d) then Inl ValueError else Inr (component_value d))"
proof -
  from assms obtain c r where d: "d = c # r" and c: "is_digit c" and r: "list_all is_digit r"
    by (cases d) (auto simp: decimal_integer_def)
  have l: "is_digit (last d)" using assms
    by (simp add: decimal_integer_def list_all_iff)
  have ne: "ascii d \<noteq> []" and h: "\<not> int_space (hd (ascii d))"
    using d c by (simp_all add: ascii_def digit_not_space)
  have la: "\<not> int_space (last (ascii d))"
    using l assms by (simp add: ascii_def last_map decimal_integer_def digit_not_space)
  have s: "strip (ascii d) = ascii d"
    using ne h la by (rule strip_id)
  have n: "length (filter (\<lambda>x. x \<noteq> 95) (ascii d)) = length d"
    using assms by (simp add: digits_counted decimal_integer_def)
  have v: "digit_value tbl (of_char c) = Some (of_char c - 48)"
    using c by (simp add: digit_value_def is_digit_def)
  have f: "int_digits tbl (int (of_char c - 48)) (ascii r) = Some (component_value d)"
    using c int_digits_digits [OF r, of tbl "int (of_char c) - 48"]
    by (simp add: d is_digit_def component_value_def)
  have e: "ascii d = of_char c # ascii r"
    by (simp add: d ascii_def)
  have u: "int_unsigned tbl m (of_char c # ascii r)
          = (if too_many_digits m (length d) then None else Some (component_value d))"
    using n unfolding int_unsigned_def e
    by (simp add: v f)
  have s': "strip (of_char c # ascii r) = of_char c # ascii r"
    using s by (simp add: e)
  have p: "of_char c \<noteq> (43 :: nat)" "of_char c \<noteq> (45 :: nat)"
    using c by (simp_all add: is_digit_def)
  show ?thesis
    unfolding e py_int_def by (simp add: s' u p Let_def)
qed

lemma map_int_within:
  "list_all decimal_integer ds \<Longrightarrow> within_limit m ds
   \<Longrightarrow> map_int tbl m (map ascii ds) = Inr (map component_value ds)"
  by (induction ds) (simp_all add: py_int_decimal_cases within_limit_def)

lemma map_int_beyond:
  "list_all decimal_integer ds \<Longrightarrow> \<not> within_limit m ds
   \<Longrightarrow> map_int tbl m (map ascii ds) = Inl ValueError"
  by (induction ds) (auto simp: py_int_decimal_cases within_limit_def)

lemma digit_ascii: "list_all is_digit d \<Longrightarrow> list_all (\<lambda>c. (of_char c :: nat) < 128) d"
  by (induction d) (simp_all add: is_digit_def)

lemma join_dots_ascii:
  "list_all decimal_integer ds \<Longrightarrow> list_all (\<lambda>c. (of_char c :: nat) < 128) (join_dots ds)"
  by (induction ds rule: join_dots.induct) (simp_all add: decimal_integer_def digit_ascii)

lemma VersionParam_parse_version:
  assumes "ds \<noteq> []" "list_all decimal_integer ds"
  shows "VersionParam_parse tbl m (join_dots ds)
           = (if within_limit m ds then Inr (PyTuple (map component_value ds))
              else Inl (Error BAD_REQUEST ''Invalid version literal''))"
  using assms
  by (simp add: VersionParam_parse_def decode_ascii join_dots_ascii split_join map_int_within
      map_int_beyond)

lemma tuple_lt_less: "tuple_lt xs ys = (xs < ys)"
  by (induction xs ys rule: tuple_lt.induct) auto

lemma long_component:
  "decimal_integer (replicate 4301 (CHR ''1''))"
  "\<not> too_many_digits m (length ''1'')"
  "too_many_digits default_max_str_digits (length (replicate 4301 (CHR ''1'')))"
  by (simp_all add: decimal_integer_def is_digit_def list_all_iff too_many_digits_def
      default_max_str_digits_def)

text \<open>
  C9, as the code has it. For two versions written as dot-separated decimal integers,
  none of them longer than the interpreter's limit on the digits of one conversion
  allows, \<open>VersionParam.parse\<close> returns the tuples of the components' values, and
  \<open>parse(v) < parse(w)\<close> holds exactly when the first version is below the second in the
  numeric order; in particular \<open>parse(b"5.9") < parse(b"5.10")\<close>. A version with a
  component beyond the limit is refused with the 400 error.
\<close>

theorem VersionParam_parse_order:
  assumes "ds \<noteq> []" "list_all decimal_integer ds" "es \<noteq> []" "list_all decimal_integer es"
  shows "(within_limit m ds \<longrightarrow>
            VersionParam_parse tbl m (join_dots ds) = Inr (PyTuple (map component_value ds)))
       \<and> (within_limit m es \<longrightarrow>
            VersionParam_parse tbl m (join_dots es) = Inr (PyTuple (map component_value es)))
       \<and> (within_limit m ds \<and> within_limit m es \<longrightarrow>
            parse_lt tbl m (join_dots ds) (join_dots es) = Some (version_less ds es))
       \<and> (\<not> within_limit m ds \<longrightarrow>
            VersionParam_parse tbl m (join_dots ds)
              = Inl (Error BAD_REQUEST ''Invalid version literal''))
       \<and> parse_lt tbl m ''5.9'' ''5.10'' = Some True"
proof -
  have w: "within_limit m [''5'', ''9'']" "within_limit m [''5'', ''10'']"
    by (simp_all add: within_limit_def too_many_digits_def)
  have a: "VersionParam_parse tbl m (join_dots [''5'', ''9''])
             = Inr (PyTuple (map component_value [''5'', ''9'']))"
    using w by (subst VersionParam_parse_version) (simp_all add: decimal_integer_def is_digit_def)
  have b: "VersionParam_parse tbl m (join_dots [''5'', ''10''])
             = Inr (PyTuple (map component_value [''5'', ''10'']))"
    using w by (subst VersionParam_parse_version) (simp_all add: decimal_integer_def is_digit_def)
  have "parse_lt tbl m ''5.9'' ''5.10'' = Some True"
    using a b by (simp add: parse_lt_def component_value_def)
  then show ?thesis using assms
    by (simp add: VersionParam_parse_version parse_lt_def version_less_def tuple_lt_less)
qed

theorem VersionParam_parse_order_witness:
  "list_all decimal_integer [''1'', ''2'', ''10''] \<and> list_all decimal_integer [''1'', ''10'']
 \<and> within_limit default_max_str_digits [''1'', ''2'', ''10'']
 \<and> within_limit default_max_str_digits [''1'', ''10'']
 \<and> VersionParam_parse no_entries default_max_str_digits ''1.2.10'' = Inr (PyTuple [1, 2, 10])
 \<and> VersionParam_parse no_entries default_max_str_digits ''1.10'' = Inr (PyTuple [1, 10])
 \<and> parse_lt no_entries default_max_str_digits ''1.2.10'' ''1.10'' = Some True
 \<and> parse_lt no_entries default_max_str_digits ''5.9'' ''5.10'' = Some True
 \<and> \<not> within_limit default_max_str_digits [''1'', replicate 4301 (CHR ''1'')]
 \<and> VersionParam_parse no_entries default_max_str_digits (''1.'' @ replicate 4301 (CHR ''1''))
     = Inl (Error BAD_REQUEST ''Invalid version literal'')"
proof -
  have h1: "[''1'', ''2'', ''10''] \<noteq> []" and h3: "[''1'', ''10''] \<noteq> []"
    and h5: "[''1'', replicate 4301 (CHR ''1'')] \<noteq> []"
    by simp_all
  have h2: "list_all decimal_integer [''1'', ''2'', ''10'']"
    by (simp add: decimal_integer_def is_digit_def)
  have h4: "list_all decimal_integer [''1'', ''10'']"
    by (simp add: decimal_integer_def is_digit_def)
  have h6: "list_all decimal_integer [''1'', replicate 4301 (CHR ''1'')]"
    using long_component(1) by (simp add: decimal_integer_def is_digit_def)
  have w: "within_limit default_max_str_digits [''1'', ''2'', ''10'']"
          "within_limit default_max_str_digits [''1'', ''10'']"
    by (simp_all add: within_limit_def too_many_digits_def)
  have n: "\<not> within_limit default_max_str_digits [''1'', replicate 4301 (CHR ''1'')]"
    using long_component(3) by (simp add: within_limit_def)
  have j: "join_dots [''1'', replicate 4301 (CHR ''1'')] = ''1.'' @ replicate 4301 (CHR ''1'')"
    by simp
  show ?thesis
    using h2 h4 w n
      VersionParam_parse_order [OF h1 h2 h3 h4, of default_max_str_digits no_entries]
      VersionParam_parse_order [OF h5 h6 h3 h4, of default_max_str_digits no_entries]
    unfolding j
    by (simp add: component_value_def version_less_def)
qed

text \<open>
  C9 as it is written fails under the default limit of 4300 digits: the version whose
  second component is the digit 1 written 4301 times is made of decimal integers, and
  \<open>parse\<close> raises the 400 error for it.
\<close>

theorem VersionParam_parse_counterexample:
  "VersionParam_parse no_entries default_max_str_digits (''1.'' @ replicate 4301 (CHR ''1''))
     = Inl (Error BAD_REQUEST ''Invalid version literal'')"
proof -
  have n: "\<not> within_limit default_max_str_digits [''1'', replicate 4301 (CHR ''1'')]"
    using long_component(3) by (simp add: within_limit_def)
  have d: "list_all decimal_integer [''1'', replicate 4301 (CHR ''1'')]"
    using long_component(1) by (simp add: decimal_integer_def is_digit_def)
  have "VersionParam_parse no_entries default_max_str_digits
          (join_dots [''1'', replicate 4301 (CHR ''1'')])
          = Inl (Error BAD_REQUEST ''Invalid version literal'')"
    using n d by (subst VersionParam_parse_version) simp_all
  then show ?thesis by simp
qed

section \<open>Properties of \<open>util/wait_on_shutdown.py\<close>\<close>

subsection \<open>The tracked set\<close>

lemma running_reqs_remove_reqs:
  "running_reqs (remove_reqs hs st) = running_reqs st |-| fset_of_list hs"
proof (induction hs arbitrary: st)
  case Nil
  then show ?case by simp
next
  case (Cons h hs)
  have "running_reqs (snd (remove_req h st)) = running_reqs st |-| {|h|}"
    by (auto simp: remove_req_def)
  with Cons show ?case by auto
qed

lemma fcard_fminus_le: "fcard (A |-| B) \<le> fcard A"
  by (rule fcard_mono) auto

lemma running_reqs_busy: "running_reqs busy = {|1|}"
  by (simp add: busy_def request_factory_def idle_def)

lemma notify_finish_busy: "notify_finish busy = [1]"
  by (simp add: busy_def request_factory_def idle_def)

lemma log_busy: "log busy = []"
  by (simp add: busy_def request_factory_def idle_def)

lemma delayed_calls_busy: "delayed_calls busy = []"
  by (simp add: busy_def request_factory_def idle_def)

lemma timeout_deferred_busy: "timeout_deferred busy = new_Deferred"
  by (simp add: busy_def request_factory_def idle_def)

text \<open>
  C3, as the code has it. \<open>remove_req\<close> takes a tracked identifier out of the set; for an
  identifier that is not in the set it raises \<open>KeyError\<close> and leaves everything as it
  was. Whatever identifiers a series of such calls is given, matched or not, the set
  only loses those identifiers, so its size never grows and is never negative.
\<close>

theorem remove_req_cases:
  "(req_hash |\<in>| running_reqs st \<longrightarrow>
      remove_req req_hash st
        = (Inr (), st\<lparr>running_reqs := running_reqs st |-| {|req_hash|}\<rparr>))
 \<and> (req_hash |\<notin>| running_reqs st \<longrightarrow> remove_req req_hash st = (Inl KeyError, st))
 \<and> running_reqs (remove_reqs hs st) = running_reqs st |-| fset_of_list hs
 \<and> 0 \<le> int (fcard (running_reqs (remove_reqs hs st)))
 \<and> fcard (running_reqs (remove_reqs hs st)) \<le> fcard (running_reqs st)"
  by (simp add: remove_req_def running_reqs_remove_reqs fcard_fminus_le)

theorem remove_req_cases_witness:
  "remove_req 1 busy = (Inr (), busy\<lparr>running_reqs := {||}\<rparr>)
 \<and> remove_req 2 busy = (Inl KeyError, busy)
 \<and> running_reqs (remove_reqs [2, 1, 1] busy) = {||}"
  using remove_req_cases [of 1 busy "[2, 1, 1]"] remove_req_cases [of 2 busy "[]"]
  by (simp add: running_reqs_busy del: remove_reqs.simps)

text \<open>
  C3 as it is written fails when the identifier is absent: on the idle site,
  \<open>remove_req\<close> raises.
\<close>

theorem remove_req_counterexample:
  "fst (remove_req 7 idle) = Inl KeyError"
  by (simp add: remove_req_def idle_def)

text \<open>
  C6, as the code has it. \<open>request_factory\<close> never fails: an identifier that is tracked
  already is accepted, the set stays as it is, and one more \<open>remove_req\<close> callback is
  attached for it.
\<close>

theorem request_factory_present:
  "fst (request_factory req_hash st) = Inr ()
 \<and> running_reqs (snd (request_factory req_hash st)) = finsert req_hash (running_reqs st)
 \<and> (req_hash |\<in>| running_reqs st \<longrightarrow>
      running_reqs (snd (request_factory req_hash st)) = running_reqs st)
 \<and> notify_finish (snd (request_factory req_hash st)) = notify_finish st @ [req_hash]"
  by (auto simp: request_factory_def)

theorem request_factory_present_witness:
  "1 |\<in>| running_reqs busy
 \<and> fst (request_factory 1 busy) = Inr ()
 \<and> running_reqs (snd (request_factory 1 busy)) = running_reqs busy
 \<and> notify_finish (snd (request_factory 1 busy)) = [1, 1]"
  using request_factory_present [of 1 busy]
  by (simp add: running_reqs_busy notify_finish_busy)

text \<open>
  C6 as it is written fails: registering the identifier 1 a second time returns
  normally and changes nothing but the list of callbacks.
\<close>

theorem request_factory_counterexample:
  "request_factory 1 busy = (Inr (), busy\<lparr>notify_finish := [1, 1]\<rparr>)"
  by (simp add: request_factory_def running_reqs_busy notify_finish_busy)

subsection \<open>The timeout\<close>

text \<open>
  C7. \<open>kill_timeout\<close> logs one warning carrying the number of tracked requests and
  calls the Deferred back with \<open>True\<close> (which succeeds if it has no result yet); the
  tracked set, the callbacks of the requests and the pending delayed calls are left as
  they were.
\<close>

theorem kill_timeout_frame:
  "running_reqs (snd (kill_timeout st)) = running_reqs st
 \<and> notify_finish (snd (kill_timeout st)) = notify_finish st
 \<and> delayed_calls (snd (kill_timeout st)) = delayed_calls st
 \<and> log (snd (kill_timeout st))
     = log st @ [LogRecord WARNING ''Timeout reached, canceling %s requests''
                   [fcard (running_reqs st)]]
 \<and> (\<not> called (timeout_deferred st) \<longrightarrow>
      fst (kill_timeout st) = Inr ()
      \<and> result (timeout_deferred (snd (kill_timeout st))) = Some (PyBool True))"
  by (simp add: kill_timeout_def timeout_deferred_callback_def Deferred_callback_def
      logging_def split: sum.splits prod.splits)

theorem kill_timeout_frame_witness:
  "\<not> called (timeout_deferred busy)
 \<and> running_reqs (snd (kill_timeout busy)) = {|1|}
 \<and> log (snd (kill_timeout busy))
     = [LogRecord WARNING ''Timeout reached, canceling %s requests'' [1]]
 \<and> fst (kill_timeout busy) = Inr ()
 \<and> result (timeout_deferred (snd (kill_timeout busy))) = Some (PyBool True)"
proof -
  have h: "\<not> called (timeout_deferred busy)"
    by (simp add: timeout_deferred_busy called_def new_Deferred_def)
  show ?thesis
    using h kill_timeout_frame [of busy]
    by (simp add: running_reqs_busy log_busy fcard_finsert_if)
qed

subsection \<open>Calling the Deferred back\<close>

lemmas shutdown_defs =
  kill_timeout_def kill_if_requests_done_def timeout_deferred_callback_def
  close_conn_deferred_callback_def Deferred_callback_def logging_def callLater_def
  remove_req_def request_factory_def run_callable_def step_def

lemma joined_timeout_deferred_callback:
  "joined st \<Longrightarrow> joined (snd (timeout_deferred_callback r st))"
  by (auto simp: joined_def timeout_deferred_callback_def Deferred_callback_def
      cbDeferred_def called_def Let_def)

lemma joined_close_conn_deferred_callback:
  "joined st \<Longrightarrow> joined (snd (close_conn_deferred_callback r st))"
  by (auto simp: joined_def close_conn_deferred_callback_def Deferred_callback_def
      cbDeferred_def called_def Let_def)

lemma joined_cong:
  "timeout_deferred s' = timeout_deferred s \<Longrightarrow> close_conn_deferred s' = close_conn_deferred s
   \<Longrightarrow> shutdown_deferred s' = shutdown_deferred s \<Longrightarrow> joined s' = joined s"
  by (simp add: joined_def)

lemma joined_kill_timeout: "joined st \<Longrightarrow> joined (snd (kill_timeout st))"
  unfolding kill_timeout_def
  by (rule joined_timeout_deferred_callback) (simp add: joined_def logging_def)

lemma joined_kill_if_requests_done: "joined st \<Longrightarrow> joined (snd (kill_if_requests_done st))"
proof (cases "running_reqs st = {||}")
  case True
  assume "joined st"
  then have "joined (logging INFO ''No pending requests, shutting down!'' [] st)"
    by (simp add: joined_def logging_def)
  then show ?thesis
    using True by (simp add: kill_if_requests_done_def joined_timeout_deferred_callback)
next
  case False
  assume "joined st"
  then show ?thesis
    using False by (simp add: kill_if_requests_done_def joined_def logging_def callLater_def)
qed

lemma joined_step: "joined st \<Longrightarrow> joined (snd (step ev st))"
proof (cases ev)
  case (Request h)
  assume "joined st"
  then show ?thesis
    using Request by (simp add: step_def request_factory_def joined_def)
next
  case (Finished i)
  assume "joined st"
  then show ?thesis
    using Finished by (simp add: step_def remove_req_def joined_def)
next
  case (Timer i)
  assume j: "joined st"
  let ?st = "st\<lparr>delayed_calls := take i (delayed_calls st) @ drop (Suc i) (delayed_calls st)\<rparr>"
  have "joined ?st"
    using j by (simp add: joined_def)
  then have "joined (snd (run_callable f ?st))" for f
    by (cases f) (simp_all add: run_callable_def joined_kill_timeout joined_kill_if_requests_done)
  then show ?thesis
    using Timer j by (simp add: step_def)
next
  case (PortClosed r)
  assume "joined st"
  then show ?thesis
    using PortClosed by (simp add: step_def joined_close_conn_deferred_callback)
qed

lemma joined_run: "joined st \<Longrightarrow> joined (run evs st)"
  by (induction evs arbitrary: st) (simp_all add: joined_step)

lemma joined_new_DeferredList:
  "callbacks (timeout_deferred st) = [] \<Longrightarrow> callbacks (close_conn_deferred st) = []
   \<Longrightarrow> joined (new_DeferredList st)"
  by (auto simp: joined_def new_DeferredList_def addCallbacks_def cbDeferred_def called_def
      Let_def split: option.splits)

lemma shutdown_returns: "fst (shutdown timeout stopped st) = Inr ()"
  by (simp add: shutdown_def Let_def kill_if_requests_done_def timeout_deferred_callback_def
      Deferred_callback_def called_def new_Deferred_def logging_def callLater_def
      split: prod.splits)

lemma shutdown_eq:
  "snd (shutdown timeout stopped st) =
     new_DeferredList
       (snd (kill_if_requests_done
          ((callLater timeout KillTimeout
              ((logging INFO ''Shutdown requested'' [] st)\<lparr>timeout_deferred := new_Deferred\<rparr>))
           \<lparr>close_conn_deferred := \<lparr>result = stopped, callbacks = []\<rparr>\<rparr>)))"
proof -
  let ?st4 = "(callLater timeout KillTimeout
                 ((logging INFO ''Shutdown requested'' [] st)\<lparr>timeout_deferred := new_Deferred\<rparr>))
               \<lparr>close_conn_deferred := \<lparr>result = stopped, callbacks = []\<rparr>\<rparr>"
  have r: "fst (kill_if_requests_done ?st4) = Inr ()"
    by (simp add: kill_if_requests_done_def timeout_deferred_callback_def Deferred_callback_def
        called_def new_Deferred_def logging_def callLater_def)
  show ?thesis
    using r by (simp add: shutdown_def Let_def case_prod_beta)
qed

lemma new_DeferredList_frame:
  "running_reqs (new_DeferredList st) = running_reqs st"
  "notify_finish (new_DeferredList st) = notify_finish st"
  "log (new_DeferredList st) = log st"
  "delayed_calls (new_DeferredList st) = delayed_calls st"
  "result (timeout_deferred (new_DeferredList st)) = result (timeout_deferred st)"
  "result (close_conn_deferred (new_DeferredList st)) = result (close_conn_deferred st)"
  by (simp_all add: new_DeferredList_def addCallbacks_def Let_def case_prod_beta
      split: option.splits)

lemma joined_shutdown: "joined (snd (shutdown timeout stopped st))"
  unfolding shutdown_eq
  by (rule joined_new_DeferredList)
     (simp_all add: kill_if_requests_done_def timeout_deferred_callback_def
        Deferred_callback_def called_def new_Deferred_def logging_def callLater_def)

lemma joined_fired:
  "joined s \<Longrightarrow>
   fired (shutdown_deferred s) = (called (timeout_deferred s) \<and> called (close_conn_deferred s))"
  by (auto simp: joined_def)

lemma timeout_deferred_step:
  "called (timeout_deferred st) \<Longrightarrow> timeout_deferred (snd (step ev st)) = timeout_deferred st"
proof (cases ev)
  case (Timer i)
  assume c: "called (timeout_deferred st)"
  let ?st = "st\<lparr>delayed_calls := take i (delayed_calls st) @ drop (Suc i) (delayed_calls st)\<rparr>"
  have "timeout_deferred (snd (run_callable f ?st)) = timeout_deferred st" for f
    using c by (cases f) (simp_all add: shutdown_defs)
  then show ?thesis
    using Timer by (simp add: step_def)
qed (simp_all add: shutdown_defs)

lemma timeout_deferred_run:
  "called (timeout_deferred st) \<Longrightarrow> timeout_deferred (run evs st) = timeout_deferred st"
  by (induction evs arbitrary: st) (simp_all add: timeout_deferred_step)

lemma idle_shutdown:
  "snd (shutdown 10 None idle) =
     \<lparr>running_reqs = {||}, notify_finish = [],
      log = [LogRecord INFO ''Shutdown requested'' [],
             LogRecord INFO ''No pending requests, shutting down!'' []],
      delayed_calls = [(10, KillTimeout)],
      timeout_deferred = \<lparr>result = Some (PyBool True), callbacks = []\<rparr>,
      close_conn_deferred = \<lparr>result = None, callbacks = [1]\<rparr>,
      shutdown_deferred = \<lparr>resultList = [Some (PyBool True), None], finishedCount = 1,
                            fired = False\<rparr>\<rparr>"
  by (simp add: shutdown_def idle_def Let_def kill_if_requests_done_def
      timeout_deferred_callback_def Deferred_callback_def called_def new_Deferred_def
      logging_def callLater_def new_DeferredList_def addCallbacks_def cbDeferred_def)

lemma busy_shutdown:
  "snd (shutdown 10 None busy) =
     \<lparr>running_reqs = {|1|}, notify_finish = [1],
      log = [LogRecord INFO ''Shutdown requested'' [],
             LogRecord INFO ''%s requests still running, waiting ...'' [1]],
      delayed_calls = [(10, KillTimeout), (5, KillIfRequestsDone)],
      timeout_deferred = \<lparr>result = None, callbacks = [0]\<rparr>,
      close_conn_deferred = \<lparr>result = None, callbacks = [1]\<rparr>,
      shutdown_deferred = \<lparr>resultList = [None, None], finishedCount = 0, fired = False\<rparr>\<rparr>"
  by (simp add: shutdown_def busy_def request_factory_def idle_def Let_def
      kill_if_requests_done_def timeout_deferred_callback_def Deferred_callback_def called_def
      new_Deferred_def logging_def callLater_def new_DeferredList_def addCallbacks_def
      cbDeferred_def fcard_finsert_if)

text \<open>
  C1, as the code has it. The first call back of \<open>timeout_deferred\<close>, from either path,
  succeeds, records its result and runs each waiting callback once. Every later attempt
  raises \<open>AlreadyCalledError\<close> and changes nothing: not the recorded result, not the
  list \<open>shutdown\<close> returned; and whatever the reactor does afterwards, the recorded result
  stays.
\<close>

theorem timeout_deferred_called_once:
  "(\<not> called (timeout_deferred st) \<longrightarrow>
      timeout_deferred_callback r st
        = (Inr (), st\<lparr>timeout_deferred := \<lparr>result = Some r, callbacks = []\<rparr>,
                      shutdown_deferred :=
                        fold (\<lambda>i. cbDeferred i r) (callbacks (timeout_deferred st))
                          (shutdown_deferred st)\<rparr>))
 \<and> (called (timeout_deferred st) \<longrightarrow>
      timeout_deferred_callback r st = (Inl AlreadyCalledError, st)
      \<and> fst (kill_timeout st) = Inl AlreadyCalledError
      \<and> timeout_deferred (snd (kill_timeout st)) = timeout_deferred st
      \<and> shutdown_deferred (snd (kill_timeout st)) = shutdown_deferred st
      \<and> (running_reqs st = {||} \<longrightarrow>
           fst (kill_if_requests_done st) = Inl AlreadyCalledError
           \<and> timeout_deferred (snd (kill_if_requests_done st)) = timeout_deferred st
           \<and> shutdown_deferred (snd (kill_if_requests_done st)) = shutdown_deferred st)
      \<and> timeout_deferred (run evs st) = timeout_deferred st)"
  by (simp add: timeout_deferred_run kill_timeout_def kill_if_requests_done_def
      timeout_deferred_callback_def Deferred_callback_def logging_def)

theorem timeout_deferred_called_once_witness:
  "\<not> called (timeout_deferred busy)
 \<and> called (timeout_deferred (snd (kill_timeout busy)))
 \<and> fst (kill_timeout busy) = Inr ()
 \<and> fst (kill_timeout (snd (kill_timeout busy))) = Inl AlreadyCalledError
 \<and> result (timeout_deferred (run [Timer 0, Finished 0] (snd (kill_timeout busy))))
     = Some (PyBool True)"
proof -
  have h: "\<not> called (timeout_deferred busy)"
    by (simp add: timeout_deferred_busy called_def new_Deferred_def)
  have k: "fst (kill_timeout busy) = Inr ()"
          "result (timeout_deferred (snd (kill_timeout busy))) = Some (PyBool True)"
    using h by (simp_all add: kill_timeout_def timeout_deferred_callback_def
        Deferred_callback_def logging_def)
  then have c: "called (timeout_deferred (snd (kill_timeout busy)))"
    by (simp add: called_def)
  show ?thesis
    using h k c
      timeout_deferred_called_once [of "snd (kill_timeout busy)" "PyBool True"
        "[Timer 0, Finished 0]"]
    by (simp del: run.simps)
qed

text \<open>
  C1 as it is written fails on the idle site whose port is still closing: the drain
  check of \<open>shutdown\<close> has called the Deferred back, and when the timeout timer runs,
  \<open>kill_timeout\<close> raises.
\<close>

theorem timeout_deferred_counterexample:
  "fst (kill_timeout (snd (shutdown 10 None idle))) = Inl AlreadyCalledError"
  by (simp add: idle_shutdown kill_timeout_def timeout_deferred_callback_def
      Deferred_callback_def called_def logging_def)

text \<open>
  C2, as the code has it. Once \<open>timeout_deferred\<close> has its result, a callback that is
  still scheduled changes neither that Deferred, nor the Deferred of the port, nor the
  list \<open>shutdown\<close> returned, nor the tracked set; but it is not silent. The recheck does
  not look at the Deferred: while requests are tracked it logs and schedules itself
  again after 5 seconds, and when the set is empty it logs and raises
  \<open>AlreadyCalledError\<close>. The timeout timer logs its warning and raises
  \<open>AlreadyCalledError\<close>.
\<close>

theorem leftover_callbacks:
  assumes "called (timeout_deferred st)"
  shows "(running_reqs st \<noteq> {||} \<longrightarrow>
            fst (kill_if_requests_done st) = Inr ()
            \<and> delayed_calls (snd (kill_if_requests_done st))
                = delayed_calls st @ [(5, KillIfRequestsDone)]
            \<and> log (snd (kill_if_requests_done st))
                = log st @ [LogRecord INFO ''%s requests still running, waiting ...''
                              [fcard (running_reqs st)]])
       \<and> (running_reqs st = {||} \<longrightarrow>
            fst (kill_if_requests_done st) = Inl AlreadyCalledError
            \<and> delayed_calls (snd (kill_if_requests_done st)) = delayed_calls st
            \<and> log (snd (kill_if_requests_done st))
                = log st @ [LogRecord INFO ''No pending requests, shutting down!'' []])
       \<and> fst (kill_timeout st) = Inl AlreadyCalledError
       \<and> log (snd (kill_timeout st))
           = log st @ [LogRecord WARNING ''Timeout reached, canceling %s requests''
                         [fcard (running_reqs st)]]
       \<and> (\<forall>f. timeout_deferred (snd (run_callable f st)) = timeout_deferred st
              \<and> close_conn_deferred (snd (run_callable f st)) = close_conn_deferred st
              \<and> shutdown_deferred (snd (run_callable f st)) = shutdown_deferred st
              \<and> running_reqs (snd (run_callable f st)) = running_reqs st)"
proof -
  have "timeout_deferred (snd (run_callable f st)) = timeout_deferred st
      \<and> close_conn_deferred (snd (run_callable f st)) = close_conn_deferred st
      \<and> shutdown_deferred (snd (run_callable f st)) = shutdown_deferred st
      \<and> running_reqs (snd (run_callable f st)) = running_reqs st" for f
    using assms by (cases f) (simp_all add: shutdown_defs)
  then show ?thesis
    using assms
    by (simp add: kill_timeout_def kill_if_requests_done_def timeout_deferred_callback_def
        Deferred_callback_def logging_def callLater_def)
qed

theorem leftover_callbacks_witness:
  "called (timeout_deferred (snd (kill_timeout busy)))
 \<and> fst (kill_if_requests_done (snd (kill_timeout busy))) = Inr ()
 \<and> delayed_calls (snd (kill_if_requests_done (snd (kill_timeout busy))))
     = [(5, KillIfRequestsDone)]
 \<and> fst (kill_timeout (snd (kill_timeout busy))) = Inl AlreadyCalledError"
proof -
  have h: "\<not> called (timeout_deferred busy)"
    by (simp add: timeout_deferred_busy called_def new_Deferred_def)
  have "result (timeout_deferred (snd (kill_timeout busy))) = Some (PyBool True)"
    using h by (simp add: kill_timeout_def timeout_deferred_callback_def
        Deferred_callback_def logging_def)
  then have c: "called (timeout_deferred (snd (kill_timeout busy)))"
    by (simp add: called_def)
  have r: "running_reqs (snd (kill_timeout busy)) = {|1|}"
          "delayed_calls (snd (kill_timeout busy)) = []"
    using h by (simp_all add: kill_timeout_def timeout_deferred_callback_def
        Deferred_callback_def logging_def running_reqs_busy delayed_calls_busy)
  show ?thesis
    using c r leftover_callbacks [OF c] by simp
qed

text \<open>
  C2 as it is written fails. With one request running and the port still closing, the
  timeout resolves the Deferred and the recheck that runs next schedules itself again;
  when the request has finished, the next recheck raises. On the idle site the timer
  that runs after the drain check has resolved the Deferred leaves a warning in the log.
\<close>

theorem leftover_callbacks_counterexample:
  "called (timeout_deferred (run [Timer 1, Timer 0] (snd (shutdown 10 None busy))))
 \<and> delayed_calls (run [Timer 1, Timer 0, Timer 0] (snd (shutdown 10 None busy)))
     = [(5, KillIfRequestsDone)]
 \<and> fst (step (Timer 0) (run [Timer 1, Timer 0, Finished 0] (snd (shutdown 10 None busy))))
     = Inl AlreadyCalledError
 \<and> log (snd (step (Timer 0) (snd (shutdown 10 None idle))))
     = [LogRecord INFO ''Shutdown requested'' [],
        LogRecord INFO ''No pending requests, shutting down!'' [],
        LogRecord WARNING ''Timeout reached, canceling %s requests'' [0]]"
  by (simp add: busy_shutdown idle_shutdown shutdown_defs called_def cbDeferred_def
      fcard_finsert_if)

subsection \<open>The result of \<open>shutdown\<close>\<close>

text \<open>
  C4. \<open>shutdown\<close> returns a list that, whatever the reactor does afterwards, has fired
  exactly when both \<open>timeout_deferred\<close> and the Deferred of \<open>port.stopListening()\<close> have
  their results; so it never fires while the port is still closing, even if no request
  was running.
\<close>

theorem shutdown_joins:
  "fst (shutdown timeout stopped st) = Inr ()
 \<and> fired (shutdown_deferred (run evs (snd (shutdown timeout stopped st))))
     = (called (timeout_deferred (run evs (snd (shutdown timeout stopped st))))
        \<and> called (close_conn_deferred (run evs (snd (shutdown timeout stopped st)))))"
  by (simp add: shutdown_returns joined_fired joined_run joined_shutdown)

theorem shutdown_joins_witness:
  "called (timeout_deferred (snd (shutdown 10 None idle)))
 \<and> \<not> called (close_conn_deferred (snd (shutdown 10 None idle)))
 \<and> \<not> fired (shutdown_deferred (run [] (snd (shutdown 10 None idle))))
 \<and> called (close_conn_deferred (run [PortClosed PyNone] (snd (shutdown 10 None idle))))
 \<and> fired (shutdown_deferred (run [PortClosed PyNone] (snd (shutdown 10 None idle))))"
proof -
  have a: "called (timeout_deferred (snd (shutdown 10 None idle)))"
          "\<not> called (close_conn_deferred (snd (shutdown 10 None idle)))"
    by (simp_all add: idle_shutdown called_def)
  have b: "called (timeout_deferred (run [PortClosed PyNone] (snd (shutdown 10 None idle))))"
          "called (close_conn_deferred (run [PortClosed PyNone] (snd (shutdown 10 None idle))))"
    by (simp_all add: idle_shutdown called_def step_def close_conn_deferred_callback_def
        Deferred_callback_def)
  show ?thesis
    using a b shutdown_joins [of 10 None idle "[]"]
      shutdown_joins [of 10 None idle "[PortClosed PyNone]"]
    by (simp del: run.simps) simp
qed

text \<open>
  C5. \<open>shutdown\<close> runs the drain check before it returns. With no request tracked the
  check logs that nothing is pending and calls \<open>timeout_deferred\<close> back with \<open>True\<close>, and
  only the timeout timer is left scheduled; otherwise the Deferred stays without result
  and the recheck is scheduled after 5 seconds. The recheck is the same function: as long
  as the Deferred has no result it either calls it back, scheduling nothing, or
  schedules itself after 5 seconds.
\<close>

theorem drain_check:
  "fst (shutdown timeout stopped st) = Inr ()
 \<and> (running_reqs st = {||} \<longrightarrow>
      result (timeout_deferred (snd (shutdown timeout stopped st))) = Some (PyBool True)
      \<and> delayed_calls (snd (shutdown timeout stopped st))
          = delayed_calls st @ [(timeout, KillTimeout)]
      \<and> log (snd (shutdown timeout stopped st))
          = log st @ [LogRecord INFO ''Shutdown requested'' [],
                      LogRecord INFO ''No pending requests, shutting down!'' []])
 \<and> (running_reqs st \<noteq> {||} \<longrightarrow>
      \<not> called (timeout_deferred (snd (shutdown timeout stopped st)))
      \<and> delayed_calls (snd (shutdown timeout stopped st))
          = delayed_calls st @ [(timeout, KillTimeout), (5, KillIfRequestsDone)])
 \<and> run_callable KillIfRequestsDone st = kill_if_requests_done st
 \<and> (\<not> called (timeout_deferred st) \<and> running_reqs st = {||} \<longrightarrow>
      fst (kill_if_requests_done st) = Inr ()
      \<and> result (timeout_deferred (snd (kill_if_requests_done st))) = Some (PyBool True)
      \<and> delayed_calls (snd (kill_if_requests_done st)) = delayed_calls st)
 \<and> (running_reqs st \<noteq> {||} \<longrightarrow>
      fst (kill_if_requests_done st) = Inr ()
      \<and> timeout_deferred (snd (kill_if_requests_done st)) = timeout_deferred st
      \<and> delayed_calls (snd (kill_if_requests_done st))
          = delayed_calls st @ [(5, KillIfRequestsDone)])"
  by (simp add: shutdown_returns shutdown_eq new_DeferredList_frame kill_if_requests_done_def
      timeout_deferred_callback_def Deferred_callback_def called_def new_Deferred_def
      logging_def callLater_def run_callable_def)

theorem drain_check_witness:
  "running_reqs idle = {||} \<and> running_reqs busy \<noteq> {||}
 \<and> result (timeout_deferred (snd (shutdown 3 None idle))) = Some (PyBool True)
 \<and> delayed_calls (snd (shutdown 3 None idle)) = [(3, KillTimeout)]
 \<and> \<not> called (timeout_deferred (snd (shutdown 3 None busy)))
 \<and> delayed_calls (snd (shutdown 3 None busy)) = [(3, KillTimeout), (5, KillIfRequestsDone)]
 \<and> delayed_calls (snd (kill_if_requests_done busy)) = [(5, KillIfRequestsDone)]"
proof -
  have i: "running_reqs idle = {||}" "delayed_calls idle = []"
    by (simp_all add: idle_def)
  have b: "running_reqs busy \<noteq> {||}"
    by (simp add: running_reqs_busy)
  show ?thesis
    using i b drain_check [of 3 None idle] drain_check [of 3 None busy]
    by (simp add: delayed_calls_busy)
qed

end
